theory Spec2Isabelle
  imports Main "HOL-Library.Word"
begin

section \<open>Common data\<close>

text \<open>
  A JavaScript \<open>Error\<close> is modelled by its message, the only thing the callers of this
  code can inspect (the code declares no error classes of its own).
\<close>

datatype error = Error string

text \<open>
  The settlement of a promise.  \<open>Pending\<close> is a promise that is never settled: an
  \<open>await\<close> on it never returns.
\<close>

datatype 'a promise = Resolved 'a | Rejected error | Pending

type_synonym byte = "8 word"
type_synonym bytes = "byte list"

section \<open>Background script: the session state (src/background/index.js, in src/unnamed/part_005)\<close>

text \<open>
  \<open>let state = { isUnlocked: false, network: 'mainnet', lastActivity: Date.now() }\<close>.
  Timestamps are the integers of \<open>Date.now()\<close> (milliseconds).
\<close>

record session_state =
  isUnlocked :: bool
  network :: string
  lastActivity :: int

definition initial_state :: "int \<Rightarrow> session_state" where
  "initial_state now = \<lparr>isUnlocked = False, network = ''mainnet'', lastActivity = now\<rparr>"

text \<open>\<open>const SESSION_TIMEOUT = 30 * 60 * 1000\<close>, and the period of the timeout check.\<close>

definition SESSION_TIMEOUT :: int where
  "SESSION_TIMEOUT = 30 * 60 * 1000"

definition CHECK_INTERVAL :: int where
  "CHECK_INTERVAL = 60000"

text \<open>
  A message as the listeners read it: its \<open>type\<close> field and its \<open>network\<close> field, which
  is \<open>None\<close> when the message has none.
\<close>

record message =
  msg_type :: string
  msg_network :: "string option"

text \<open>The objects handed to \<open>sendResponse\<close>.\<close>

datatype response =
    StateResponse session_state
  | SuccessResponse
  | FailureResponse string
  | ConnectResponse string

text \<open>
  The \<open>chrome.runtime.onMessage\<close> listener: the first statement stamps the activity
  time, then the \<open>switch\<close> on the message type runs.  The result is the response sent and
  the state left behind.
\<close>

definition onMessage_listener :: "int \<Rightarrow> message \<Rightarrow> session_state \<Rightarrow> response \<times> session_state" where
  "onMessage_listener now m st0 =
     (let st = st0\<lparr>lastActivity := now\<rparr> in
      if msg_type m = ''GET_STATE'' then (StateResponse st, st)
      else if msg_type m = ''UNLOCK_WALLET'' then (SuccessResponse, st\<lparr>isUnlocked := True\<rparr>)
      else if msg_type m = ''LOCK_WALLET'' then (SuccessResponse, st\<lparr>isUnlocked := False\<rparr>)
      else if msg_type m = ''SWITCH_NETWORK'' then
        (case msg_network m of
           None \<Rightarrow> (FailureResponse ''Invalid network'', st)
         | Some n \<Rightarrow>
             if n \<noteq> [] \<and> (n = ''mainnet'' \<or> n = ''testnet'')
             then (SuccessResponse, st\<lparr>network := n\<rparr>)
             else (FailureResponse ''Invalid network'', st))
      else if msg_type m = ''CONNECT_SITE'' then (ConnectResponse ''creata12345...'', st)
      else (FailureResponse ''Unknown message type'', st))"

text \<open>The callback of \<open>setInterval(..., 60000)\<close>, run at time \<open>now\<close>.\<close>

definition sessionTimeoutCheck :: "int \<Rightarrow> session_state \<Rightarrow> session_state" where
  "sessionTimeoutCheck now st =
     (if isUnlocked st \<and> now - lastActivity st > SESSION_TIMEOUT
      then st\<lparr>isUnlocked := False\<rparr> else st)"

text \<open>
  The messages posted on a port.  The listener registered by \<open>chrome.runtime.onConnect\<close>
  exists only on a port named \<open>content-script\<close>; it answers \<open>REQUEST_ACCOUNTS\<close> and posts
  nothing for any other message.  It reads the state and assigns no field of it.
\<close>

datatype port_message =
    ACCOUNTS_RESPONSE "string list"
  | ERROR string

definition port_onMessage_listener ::
  "string \<Rightarrow> message \<Rightarrow> session_state \<Rightarrow> port_message option \<times> session_state" where
  "port_onMessage_listener port_name m st =
     (if port_name = ''content-script'' then
        (if msg_type m = ''REQUEST_ACCOUNTS'' then
           (if isUnlocked st then (Some (ACCOUNTS_RESPONSE [''creata12345...'']), st)
            else (Some (ERROR ''Wallet is locked''), st))
         else (None, st))
      else (None, st))"

section \<open>Browser interfaces used by the storage module\<close>

text \<open>
  The storage module (src/lib/storage/index.js, in src/README.md) is written against
  interfaces of the browser, which are not part of the repository.  They are taken as
  parameters, one field per call the code makes:
  \<^item> \<open>TextEncoder.encode\<close> and \<open>TextDecoder.decode\<close> (neither throws);
  \<^item> \<open>crypto.subtle.importKey('raw', _, PBKDF2)\<close>, giving key material of type \<open>'m\<close>;
  \<^item> \<open>crypto.subtle.deriveKey\<close> with PBKDF2, the salt, the iteration count and SHA-256,
    giving an AES-GCM key of 256 bits, of type \<open>'k\<close>;
  \<^item> \<open>crypto.subtle.encrypt\<close> and \<open>crypto.subtle.decrypt\<close> with AES-GCM, a key, an iv
    and the data;
  \<^item> \<open>btoa(String.fromCharCode(...a))\<close> and \<open>Uint8Array.from(atob(s), c => c.charCodeAt(0))\<close>;
  \<^item> \<open>JSON.stringify\<close>, \<open>JSON.parse\<close> and the truth value of a parsed value (\<open>!!v\<close>),
    over values of type \<open>'j\<close>.
  A call that can throw returns \<open>None\<close> (or \<open>Inl\<close> of the error thrown).
\<close>

record ('m, 'k, 'j) browser =
  TextEncoder_encode :: "string \<Rightarrow> bytes"
  TextDecoder_decode :: "bytes \<Rightarrow> string"
  importKey :: "bytes \<Rightarrow> 'm option"
  deriveKey :: "'m \<Rightarrow> bytes \<Rightarrow> nat \<Rightarrow> 'k option"
  AES_GCM_encrypt :: "'k \<Rightarrow> bytes \<Rightarrow> bytes \<Rightarrow> bytes option"
  AES_GCM_decrypt :: "'k \<Rightarrow> bytes \<Rightarrow> bytes \<Rightarrow> bytes option"
  btoa :: "bytes \<Rightarrow> string option"
  atob :: "string \<Rightarrow> bytes option"
  JSON_stringify :: "'j \<Rightarrow> string"
  JSON_parse :: "string \<Rightarrow> error + 'j"
  ToBoolean :: "'j \<Rightarrow> bool"

text \<open>
  The random source behind \<open>crypto.getRandomValues\<close> is the sequence of bytes it will
  hand out; a call for \<open>n\<close> bytes takes the next \<open>n\<close> of them.
\<close>

type_synonym entropy = "nat \<Rightarrow> byte"

definition getRandomValues :: "nat \<Rightarrow> entropy \<Rightarrow> bytes \<times> entropy" where
  "getRandomValues n rng = (map rng [0..<n], \<lambda>i. rng (n + i))"

text \<open>\<open>a.slice(start, end)\<close> and \<open>a.slice(start)\<close> of a typed array, for indices \<open>\<ge> 0\<close>.\<close>

definition slice :: "nat \<Rightarrow> nat \<Rightarrow> 'a list \<Rightarrow> 'a list" where
  "slice start end a = take (end - start) (drop start a)"

definition slice_from :: "nat \<Rightarrow> 'a list \<Rightarrow> 'a list" where
  "slice_from start a = drop start a"

section \<open>Storage module: encrypt and decrypt\<close>

text \<open>
  \<open>encrypt(data, password)\<close>.  Every statement of the body stands in one \<open>try\<close>, whose
  \<open>catch\<close> throws \<open>Error('Failed to encrypt data')\<close>.  The result is the value returned or
  the error thrown, and the random source left.
\<close>

definition encrypt ::
  "('m, 'k, 'j) browser \<Rightarrow> string \<Rightarrow> string \<Rightarrow> entropy \<Rightarrow> (error + string) \<times> entropy" where
  "encrypt B data password rng =
     (let dataBuffer = TextEncoder_encode B data;
          passwordBuffer = TextEncoder_encode B password
      in (case importKey B passwordBuffer of
            None \<Rightarrow> (Inl (Error ''Failed to encrypt data''), rng)
          | Some keyMaterial \<Rightarrow>
              (let (salt, rng1) = getRandomValues 16 rng
               in (case deriveKey B keyMaterial salt 100000 of
                     None \<Rightarrow> (Inl (Error ''Failed to encrypt data''), rng1)
                   | Some key \<Rightarrow>
                       (let (iv, rng2) = getRandomValues 12 rng1
                        in (case AES_GCM_encrypt B key iv dataBuffer of
                              None \<Rightarrow> (Inl (Error ''Failed to encrypt data''), rng2)
                            | Some encryptedBuffer \<Rightarrow>
                                (let encryptedArray = salt @ iv @ encryptedBuffer
                                 in (case btoa B encryptedArray of
                                       None \<Rightarrow> (Inl (Error ''Failed to encrypt data''), rng2)
                                     | Some encoded \<Rightarrow> (Inr encoded, rng2)))))))))"

text \<open>
  \<open>decrypt(encryptedData, password)\<close>.  Again one \<open>try\<close> around the body; its \<open>catch\<close>
  throws \<open>Error('Failed to decrypt data. Incorrect password or corrupted data.')\<close>
  whatever was caught.
\<close>

definition DECRYPT_FAILED :: error where
  "DECRYPT_FAILED = Error ''Failed to decrypt data. Incorrect password or corrupted data.''"

definition decrypt :: "('m, 'k, 'j) browser \<Rightarrow> string \<Rightarrow> string \<Rightarrow> error + string" where
  "decrypt B encryptedData password =
     (case atob B encryptedData of
        None \<Rightarrow> Inl DECRYPT_FAILED
      | Some encryptedArray \<Rightarrow>
          let salt = slice 0 16 encryptedArray;
              iv = slice 16 28 encryptedArray;
              encryptedBuffer = slice_from 28 encryptedArray;
              passwordBuffer = TextEncoder_encode B password
          in (case importKey B passwordBuffer of
                None \<Rightarrow> Inl DECRYPT_FAILED
              | Some keyMaterial \<Rightarrow>
                  (case deriveKey B keyMaterial salt 100000 of
                     None \<Rightarrow> Inl DECRYPT_FAILED
                   | Some key \<Rightarrow>
                       (case AES_GCM_decrypt B key iv encryptedBuffer of
                          None \<Rightarrow> Inl DECRYPT_FAILED
                        | Some decryptedBuffer \<Rightarrow> Inr (TextDecoder_decode B decryptedBuffer)))))"

text \<open>
  What the code relies on of the browser.  An authenticated cipher opens what it sealed
  under the same key and iv; the two base64 conversions are inverse.  The last two are
  the idealised cipher of a symbolic model: under another key the tag does not verify,
  and two 12-byte ivs that differ never give the same ciphertext.
\<close>

definition aead_correct :: "('m, 'k, 'j) browser \<Rightarrow> bool" where
  "aead_correct B =
     (\<forall>k iv d c. AES_GCM_encrypt B k iv d = Some c \<longrightarrow> AES_GCM_decrypt B k iv c = Some d)"

definition base64_inverse :: "('m, 'k, 'j) browser \<Rightarrow> bool" where
  "base64_inverse B = (\<forall>a s. btoa B a = Some s \<longrightarrow> atob B s = Some a)"

definition aead_rejects_other_key :: "('m, 'k, 'j) browser \<Rightarrow> bool" where
  "aead_rejects_other_key B =
     (\<forall>k k' iv d c. AES_GCM_encrypt B k iv d = Some c \<longrightarrow> k' \<noteq> k \<longrightarrow>
        AES_GCM_decrypt B k' iv c = None)"

definition aead_fresh_iv :: "('m, 'k, 'j) browser \<Rightarrow> bool" where
  "aead_fresh_iv B =
     (\<forall>k k' iv iv' d c c'. length iv = 12 \<longrightarrow> length iv' = 12 \<longrightarrow> iv \<noteq> iv' \<longrightarrow>
        AES_GCM_encrypt B k iv d = Some c \<longrightarrow> AES_GCM_encrypt B k' iv' d = Some c' \<longrightarrow> c \<noteq> c')"

text \<open>
  A password \<open>W'\<close> is a wrong password for \<open>W\<close> when, under every salt, the key derived
  from it is not the key derived from \<open>W\<close>.
\<close>

definition derives_other_key :: "('m, 'k, 'j) browser \<Rightarrow> string \<Rightarrow> string \<Rightarrow> bool" where
  "derives_other_key B W W' =
     (\<forall>km km' salt k k'.
        importKey B (TextEncoder_encode B W) = Some km \<longrightarrow>
        importKey B (TextEncoder_encode B W') = Some km' \<longrightarrow>
        deriveKey B km salt 100000 = Some k \<longrightarrow>
        deriveKey B km' salt 100000 = Some k' \<longrightarrow> k' \<noteq> k)"

text \<open>The salt and the iv that a call of \<open>encrypt\<close> draws from a random source.\<close>

definition salt_drawn :: "entropy \<Rightarrow> bytes" where
  "salt_drawn rng = fst (getRandomValues 16 rng)"

definition iv_drawn :: "entropy \<Rightarrow> bytes" where
  "iv_drawn rng = fst (getRandomValues 12 (snd (getRandomValues 16 rng)))"

section \<open>Storage module: saveData and getData\<close>

text \<open>
  \<open>chrome.storage.local\<close>: the stored items (this code stores strings only) and the
  error, if any, that the browser reports in \<open>chrome.runtime.lastError\<close> when one of its
  operations completes.
\<close>

record chrome_storage =
  items :: "string \<rightharpoonup> string"
  lastError :: "string option"

text \<open>
  \<open>saveData(key, value, secure = false, password = null)\<close>.  The password is \<open>None\<close>
  for \<open>null\<close>; \<open>!password\<close> holds of \<open>null\<close> and of the empty string.
\<close>

definition storage_set ::
  "string \<Rightarrow> string \<Rightarrow> chrome_storage \<Rightarrow> unit promise \<times> chrome_storage" where
  "storage_set key dataToStore st =
     (case lastError st of
        Some msg \<Rightarrow> (Rejected (Error msg), st)
      | None \<Rightarrow> (Resolved (), st\<lparr>items := (items st)(key \<mapsto> dataToStore)\<rparr>))"

definition saveData ::
  "('m, 'k, 'j) browser \<Rightarrow> string \<Rightarrow> 'j \<Rightarrow> bool \<Rightarrow> string option \<Rightarrow> entropy \<Rightarrow> chrome_storage
     \<Rightarrow> unit promise \<times> entropy \<times> chrome_storage" where
  "saveData B key v secure password rng st =
     (let dataToStore = JSON_stringify B v in
      if secure then
        (case password of
           None \<Rightarrow> (Rejected (Error ''Password is required for secure storage''), rng, st)
         | Some pw \<Rightarrow>
             if pw = [] then (Rejected (Error ''Password is required for secure storage''), rng, st)
             else (case encrypt B dataToStore pw rng of
                     (Inl e, rng') \<Rightarrow> (Rejected e, rng', st)
                   | (Inr encrypted, rng') \<Rightarrow>
                       (let (p, st') = storage_set key encrypted st in (p, rng', st'))))
      else (let (p, st') = storage_set key dataToStore st in (p, rng, st')))"

text \<open>
  \<open>getData(key, secure = false, password = null)\<close> returns a promise that the callback of
  \<open>chrome.storage.local.get\<close> settles.  The callback is an \<open>async\<close> function: on the secure
  path \<open>decrypt\<close> and \<open>JSON.parse\<close> stand in a \<open>try\<close> whose \<open>catch\<close> rejects the promise;
  on the plain path \<open>resolve(JSON.parse(data))\<close> stands unguarded, so when \<open>JSON.parse\<close>
  throws there, the exception ends the callback and neither \<open>resolve\<close> nor \<open>reject\<close> is
  ever called.  The value \<open>None\<close> is \<open>null\<close>.
\<close>

definition getData ::
  "('m, 'k, 'j) browser \<Rightarrow> string \<Rightarrow> bool \<Rightarrow> string option \<Rightarrow> chrome_storage
     \<Rightarrow> 'j option promise" where
  "getData B key secure password st =
     (case lastError st of
        Some msg \<Rightarrow> Rejected (Error msg)
      | None \<Rightarrow>
          (case items st key of
             None \<Rightarrow> Resolved None
           | Some data \<Rightarrow>
               if data = [] then Resolved None
               else if secure then
                 (case password of
                    None \<Rightarrow> Rejected (Error ''Password is required for secure retrieval'')
                  | Some pw \<Rightarrow>
                      if pw = [] then Rejected (Error ''Password is required for secure retrieval'')
                      else (case decrypt B data pw of
                              Inl e \<Rightarrow> Rejected e
                            | Inr decryptedData \<Rightarrow>
                                (case JSON_parse B decryptedData of
                                   Inl e \<Rightarrow> Rejected e
                                 | Inr v \<Rightarrow> Resolved (Some v))))
               else (case JSON_parse B data of
                       Inl e \<Rightarrow> Pending
                     | Inr v \<Rightarrow> Resolved (Some v))))"

section \<open>Keyring module (src/lib/keyring/index.js, in src/unnamed/part_002)\<close>

text \<open>
  The keyring is written against \<open>DirectSecp256k1HdWallet\<close> of the library
  \<open>@cosmjs/proto-signing\<close>, which is not part of the repository: its \<open>generate\<close>,
  \<open>fromMnemonic\<close> and \<open>deserialize\<close> are parameters, each giving a wallet of type \<open>'w\<close> or
  the error it throws, and \<open>wallet.mnemonic\<close> reads the phrase of a wallet.
\<close>

record wallet_options =
  prefix :: string
  hdPaths :: "string list"

record ('j, 'w) hd_wallet_library =
  HdWallet_generate :: "nat \<Rightarrow> wallet_options \<Rightarrow> entropy \<Rightarrow> error + 'w"
  HdWallet_fromMnemonic :: "string \<Rightarrow> wallet_options \<Rightarrow> error + 'w"
  HdWallet_deserialize :: "'j \<Rightarrow> string \<Rightarrow> error + 'w"
  wallet_mnemonic :: "'w \<Rightarrow> string"

definition WALLET_KEY :: string where
  "WALLET_KEY = ''creata_wallet''"

text \<open>\<open>generateWallet(strength = 256)\<close>; the body does not mention \<open>strength\<close>.\<close>

definition generateWallet ::
  "('j, 'w) hd_wallet_library \<Rightarrow> nat \<Rightarrow> entropy \<Rightarrow> 'w promise" where
  "generateWallet L strength rng =
     (case HdWallet_generate L 24 \<lparr>prefix = ''creata'', hdPaths = [''m/44'/60'/0'/0/0'']\<rparr> rng of
        Inl e \<Rightarrow> Rejected (Error ''Wallet generation failed'')
      | Inr wallet \<Rightarrow> Resolved wallet)"

text \<open>\<open>importFromMnemonic(mnemonic)\<close>.\<close>

definition importFromMnemonic :: "('j, 'w) hd_wallet_library \<Rightarrow> string \<Rightarrow> 'w promise" where
  "importFromMnemonic L mnemonic =
     (case HdWallet_fromMnemonic L mnemonic
             \<lparr>prefix = ''creata'', hdPaths = [''m/44'/60'/0'/0/0'']\<rparr> of
        Inl e \<Rightarrow> Rejected (Error ''Invalid mnemonic phrase'')
      | Inr wallet \<Rightarrow> Resolved wallet)"

text \<open>
  \<open>loadWallet(password)\<close>: the body of the \<open>try\<close>, which throws
  \<open>Error('No wallet found in storage')\<close> on a missing record, and the function with its
  \<open>catch\<close>, which throws one fixed error for whatever the body threw.
\<close>

definition loadWallet_try ::
  "('m, 'k, 'j) browser \<Rightarrow> ('j, 'w) hd_wallet_library \<Rightarrow> string \<Rightarrow> chrome_storage \<Rightarrow> 'w promise" where
  "loadWallet_try B L password st =
     (case getData B WALLET_KEY True (Some password) st of
        Pending \<Rightarrow> Pending
      | Rejected e \<Rightarrow> Rejected e
      | Resolved None \<Rightarrow> Rejected (Error ''No wallet found in storage'')
      | Resolved (Some serialized) \<Rightarrow>
          if \<not> ToBoolean B serialized then Rejected (Error ''No wallet found in storage'')
          else (case HdWallet_deserialize L serialized password of
                  Inl e \<Rightarrow> Rejected e
                | Inr wallet \<Rightarrow> Resolved wallet))"

definition LOAD_FAILED :: error where
  "LOAD_FAILED = Error ''Failed to load wallet. Incorrect password or corrupted data.''"

definition loadWallet ::
  "('m, 'k, 'j) browser \<Rightarrow> ('j, 'w) hd_wallet_library \<Rightarrow> string \<Rightarrow> chrome_storage \<Rightarrow> 'w promise" where
  "loadWallet B L password st =
     (case loadWallet_try B L password st of
        Rejected e \<Rightarrow> Rejected LOAD_FAILED
      | Resolved wallet \<Rightarrow> Resolved wallet
      | Pending \<Rightarrow> Pending)"

text \<open>
  \<open>hasWallet()\<close> reads the wallet record with \<open>secure = false\<close> and no password and
  returns \<open>!!serialized\<close>; its \<open>catch\<close> returns \<open>false\<close>.
\<close>

definition hasWallet :: "('m, 'k, 'j) browser \<Rightarrow> chrome_storage \<Rightarrow> bool promise" where
  "hasWallet B st =
     (case getData B WALLET_KEY False None st of
        Resolved None \<Rightarrow> Resolved False
      | Resolved (Some serialized) \<Rightarrow> Resolved (ToBoolean B serialized)
      | Rejected e \<Rightarrow> Resolved False
      | Pending \<Rightarrow> Pending)"

section \<open>Mnemonic helpers (src/utils/helpers.js) and the import form (ImportWallet.js)\<close>

text \<open>
  Phrases are strings of code units below 256.  On these, the white space of \<open>\s\<close> and
  of \<open>trim\<close> is TAB, LF, VT, FF, CR, SPACE and NO-BREAK SPACE, and \<open>toLowerCase\<close> moves
  \<open>A\<close>..\<open>Z\<close> and the capital letters of Latin-1 (U+00C0..U+00DE but U+00D7) up by 32.
\<close>

definition isWhiteSpace :: "char \<Rightarrow> bool" where
  "isWhiteSpace c = (of_char c \<in> {9, 10, 11, 12, 13, 32, 160 :: nat})"

definition trim :: "string \<Rightarrow> string" where
  "trim s = rev (dropWhile isWhiteSpace (rev (dropWhile isWhiteSpace s)))"

definition toLowerCase_unit :: "char \<Rightarrow> char" where
  "toLowerCase_unit c =
     (let n = of_char c :: nat
      in if (65 \<le> n \<and> n \<le> 90) \<or> (192 \<le> n \<and> n \<le> 222 \<and> n \<noteq> 215)
         then char_of (n + 32) else c)"

definition toLowerCase :: "string \<Rightarrow> string" where
  "toLowerCase s = map toLowerCase_unit s"

text \<open>\<open>s.split(/\s+/)\<close>: the pieces of \<open>s\<close> between the maximal runs of white space.\<close>

function split_ws :: "string \<Rightarrow> string list" where
  "split_ws s =
     (case dropWhile (\<lambda>c. \<not> isWhiteSpace c) s of
        [] \<Rightarrow> [s]
      | c # rest \<Rightarrow>
          takeWhile (\<lambda>c. \<not> isWhiteSpace c) s # split_ws (dropWhile isWhiteSpace rest))"
  by pat_completeness auto
termination
proof (relation "measure length")
  fix s :: string and c rest
  assume "dropWhile (\<lambda>c. \<not> isWhiteSpace c) s = c # rest"
  then have "Suc (length rest) \<le> length s"
    using length_dropWhile_le [of "\<lambda>c. \<not> isWhiteSpace c" s] by simp
  moreover have "length (dropWhile isWhiteSpace rest) \<le> length rest"
    by (rule length_dropWhile_le)
  ultimately show "(dropWhile isWhiteSpace rest, s) \<in> measure length"
    by simp
qed simp

declare split_ws.simps [simp del]

text \<open>\<open>s.replace(/\s+/g, ' ')\<close>: every maximal run of white space becomes one space.\<close>

function replace_ws :: "string \<Rightarrow> string" where
  "replace_ws [] = []"
| "replace_ws (c # cs) =
     (if isWhiteSpace c then CHR '' '' # replace_ws (dropWhile isWhiteSpace cs)
      else c # replace_ws cs)"
  by pat_completeness auto
termination
proof (relation "measure length")
  fix c :: char and cs
  have "length (dropWhile isWhiteSpace cs) \<le> length cs"
    by (rule length_dropWhile_le)
  then show "(dropWhile isWhiteSpace cs, c # cs) \<in> measure length"
    by simp
qed simp_all

text \<open>\<open>isValidMnemonic(mnemonic)\<close> of helpers.js; \<open>!mnemonic\<close> holds of the empty string.\<close>

definition isValidMnemonic :: "string \<Rightarrow> bool" where
  "isValidMnemonic mnemonic =
     (if mnemonic = [] then False
      else (let words = split_ws (trim mnemonic)
            in length words \<in> {12, 15, 18, 21, 24}))"

text \<open>
  \<open>validateForm()\<close> of the import form: the two error messages it sets, for the phrase
  and for the password, each \<open>None\<close> when that field passes; the form is valid when
  both are.
\<close>

definition validateForm_mnemonic :: "string \<Rightarrow> string option" where
  "validateForm_mnemonic mnemonic =
     (if trim mnemonic = [] then Some ''Recovery phrase is required''
      else if \<not> isValidMnemonic (trim mnemonic) then
        Some ''Invalid recovery phrase format. Please enter a valid 12/15/18/21/24-word phrase''
      else None)"

definition validateForm_password :: "string \<Rightarrow> string \<Rightarrow> string option" where
  "validateForm_password password confirmPassword =
     (if password = [] then Some ''Password is required''
      else if length password < 8 then Some ''Password must be at least 8 characters long''
      else if password \<noteq> confirmPassword then Some ''Passwords do not match''
      else None)"

definition validateForm :: "string \<Rightarrow> string \<Rightarrow> string \<Rightarrow> bool" where
  "validateForm mnemonic password confirmPassword =
     (validateForm_mnemonic mnemonic = None
      \<and> validateForm_password password confirmPassword = None)"

text \<open>
  \<open>handleImportWallet()\<close> up to its call of \<open>importFromMnemonic\<close>: \<open>None\<close> when the form
  is invalid and the handler returns at once, else the promise of the import of the
  cleaned phrase (what follows, \<open>storeWallet\<close> and \<open>onSuccess\<close>, is not modelled).
\<close>

definition cleanedMnemonic :: "string \<Rightarrow> string" where
  "cleanedMnemonic mnemonic = replace_ws (toLowerCase (trim mnemonic))"

definition handleImportWallet ::
  "('j, 'w) hd_wallet_library \<Rightarrow> string \<Rightarrow> string \<Rightarrow> string \<Rightarrow> 'w promise option" where
  "handleImportWallet L mnemonic password confirmPassword =
     (if \<not> validateForm mnemonic password confirmPassword then None
      else Some (importFromMnemonic L (cleanedMnemonic mnemonic)))"

text \<open>Words joined by single spaces, and the number of words of a phrase.\<close>

fun join_words :: "string list \<Rightarrow> string" where
  "join_words [] = []"
| "join_words [w] = w"
| "join_words (w # ws) = w @ CHR '' '' # join_words ws"

definition wordCount :: "string \<Rightarrow> nat" where
  "wordCount mnemonic = length (split_ws (trim mnemonic))"

section \<open>A small browser and library\<close>

text \<open>
  One concrete browser and one concrete library, on which the statements below are
  evaluated.  In the browser a byte is the character of the same code, key material is
  the password's bytes, a key is a number, and sealing under key \<open>k\<close> and iv \<open>iv\<close> puts
  \<open>k\<close> ones, a zero and the iv in front of the data; opening checks that header.  A JSON
  value is a string, written between double quotes.  In the library a wallet is its
  phrase, and \<open>fromMnemonic\<close> accepts the phrases that are in cleaned form and have a valid
  word count (the real library checks the words and their checksum as well).
\<close>

definition toy_browser :: "(bytes, nat, string) browser" where
  "toy_browser =
     \<lparr>TextEncoder_encode = map (\<lambda>c. of_nat (of_char c)),
      TextDecoder_decode = map (\<lambda>b. char_of (unat b)),
      importKey = Some,
      deriveKey = (\<lambda>m salt n. Some (length m + length salt)),
      AES_GCM_encrypt = (\<lambda>k iv d. Some (replicate k 1 @ [0] @ iv @ d)),
      AES_GCM_decrypt = (\<lambda>k iv c.
         let hdr = replicate k 1 @ [0] @ iv
         in if take (length hdr) c = hdr then Some (drop (length hdr) c) else None),
      btoa = (\<lambda>a. Some (map (\<lambda>b. char_of (unat b)) a)),
      atob = (\<lambda>s. Some (map (\<lambda>c. of_nat (of_char c)) s)),
      JSON_stringify = (\<lambda>v. CHR 0x22 # v @ [CHR 0x22]),
      JSON_parse = (\<lambda>s. if 2 \<le> length s \<and> hd s = CHR 0x22 \<and> last s = CHR 0x22
                          then Inr (butlast (tl s)) else Inl (Error ''SyntaxError'')),
      ToBoolean = (\<lambda>v. v \<noteq> [])\<rparr>"

definition toy_library :: "(string, string) hd_wallet_library" where
  "toy_library =
     \<lparr>HdWallet_generate = (\<lambda>n opts rng. Inr (join_words (replicate n ''abandon''))),
      HdWallet_fromMnemonic = (\<lambda>m opts.
         if m = cleanedMnemonic m \<and> isValidMnemonic m then Inr m
         else Inl (Error ''Invalid mnemonic format'')),
      HdWallet_deserialize = (\<lambda>j pw. Inr j),
      wallet_mnemonic = (\<lambda>w. w)\<rparr>"

text \<open>
  The small browser with the decoder of \<open>new TextDecoder()\<close>, which drops a leading
  byte order mark: here a string is written by the bytes of its UTF-8 form, and the
  three bytes EF BB BF are that form of U+FEFF.
\<close>

definition bom_browser :: "(bytes, nat, string) browser" where
  "bom_browser =
     toy_browser\<lparr>TextDecoder_decode := (\<lambda>b.
        map (\<lambda>x. char_of (unat x))
          (if take 3 b = [0xEF, 0xBB, 0xBF] then drop 3 b else b))\<rparr>"

text \<open>
  A browser whose key derivation reads the password as HMAC reads its key (RFC 2104):
  padded with zero bytes to the block of 64 bytes (a password longer than the block,
  which HMAC hashes first, is left as it is).  The derived key is the padded block
  followed by the salt, so two passwords derive one key only when their blocks agree.
  Sealing puts the key, framed by its length, and the iv in front of the data; opening
  checks that header, so no other key opens.
\<close>

definition hmac_key_block :: "bytes \<Rightarrow> bytes" where
  "hmac_key_block key = key @ replicate (64 - length key) 0"

definition hmac_browser :: "(bytes, bytes, string) browser" where
  "hmac_browser =
     \<lparr>TextEncoder_encode = map (\<lambda>c. of_nat (of_char c)),
      TextDecoder_decode = map (\<lambda>b. char_of (unat b)),
      importKey = Some,
      deriveKey = (\<lambda>m salt n. Some (hmac_key_block m @ salt)),
      AES_GCM_encrypt = (\<lambda>k iv d. Some (replicate (length k) 1 @ [0] @ k @ iv @ d)),
      AES_GCM_decrypt = (\<lambda>k iv c.
         let hdr = replicate (length k) 1 @ [0] @ k @ iv
         in if take (length hdr) c = hdr then Some (drop (length hdr) c) else None),
      btoa = (\<lambda>a. Some (map (\<lambda>b. char_of (unat b)) a)),
      atob = (\<lambda>s. Some (map (\<lambda>c. of_nat (of_char c)) s)),
      JSON_stringify = (\<lambda>v. CHR 0x22 # v @ [CHR 0x22]),
      JSON_parse = (\<lambda>s. if 2 \<le> length s \<and> hd s = CHR 0x22 \<and> last s = CHR 0x22
                          then Inr (butlast (tl s)) else Inl (Error ''SyntaxError'')),
      ToBoolean = (\<lambda>v. v \<noteq> [])\<rparr>"

text \<open>A random source that hands out the bytes 0, 1, 2, ...\<close>

definition counting_entropy :: entropy where
  "counting_entropy i = of_nat i"

text \<open>What \<open>encrypt\<close> returns, in the small browser, for the JSON text of a wallet.\<close>

definition toy_wallet_blob :: string where
  "toy_wallet_blob =
     (case fst (encrypt toy_browser (JSON_stringify toy_browser ''wallet'') ''password1''
                  counting_entropy) of
        Inr blob \<Rightarrow> blob
      | Inl e \<Rightarrow> [])"

section \<open>Properties of the session state\<close>

lemma onMessage_listener_stamps:
  "lastActivity (snd (onMessage_listener now m st)) = now"
  by (simp add: onMessage_listener_def Let_def split: option.split)

lemma port_onMessage_listener_keeps_state:
  "snd (port_onMessage_listener port_name m st) = st"
  by (simp add: port_onMessage_listener_def)

text \<open>
  C3: with the session unlocked, a check that fires when \<open>now - lastActivity\<close> exceeds
  the 30-minute threshold locks the session, with no message involved; a check that
  fires when \<open>lastActivity = now\<close> leaves it unlocked.  The threshold is 30 minutes in
  milliseconds and the check is scheduled every 60 seconds.
\<close>

theorem session_timeout_check:
  assumes "isUnlocked st"
  shows "(now - lastActivity st > SESSION_TIMEOUT \<longrightarrow> \<not> isUnlocked (sessionTimeoutCheck now st))
       \<and> (lastActivity st = now \<longrightarrow> isUnlocked (sessionTimeoutCheck now st))
       \<and> SESSION_TIMEOUT = 30 * 60 * 1000
       \<and> CHECK_INTERVAL \<le> 60 * 1000"
  using assms by (simp add: sessionTimeoutCheck_def SESSION_TIMEOUT_def CHECK_INTERVAL_def)

theorem session_timeout_check_witness:
  "isUnlocked \<lparr>isUnlocked = True, network = ''mainnet'', lastActivity = 0\<rparr>
   \<and> \<not> isUnlocked (sessionTimeoutCheck (SESSION_TIMEOUT + 1)
        \<lparr>isUnlocked = True, network = ''mainnet'', lastActivity = 0\<rparr>)
   \<and> isUnlocked (sessionTimeoutCheck 0
        \<lparr>isUnlocked = True, network = ''mainnet'', lastActivity = 0\<rparr>)"
  using session_timeout_check
      [of "\<lparr>isUnlocked = True, network = ''mainnet'', lastActivity = 0\<rparr>" "SESSION_TIMEOUT + 1"]
    session_timeout_check
      [of "\<lparr>isUnlocked = True, network = ''mainnet'', lastActivity = 0\<rparr>" 0]
  by simp

text \<open>
  C9: a \<open>REQUEST_ACCOUNTS\<close> message on the content-script port is answered with a list
  of account addresses when the session is unlocked, and with the error
  \<open>Wallet is locked\<close>, which carries no account, when it is locked.
\<close>

theorem request_accounts_response:
  "msg_type m = ''REQUEST_ACCOUNTS'' \<Longrightarrow>
   fst (port_onMessage_listener ''content-script'' m st) =
     (if isUnlocked st then Some (ACCOUNTS_RESPONSE [''creata12345...''])
      else Some (ERROR ''Wallet is locked''))"
  by (simp add: port_onMessage_listener_def)

theorem request_accounts_response_witness:
  "msg_type \<lparr>msg_type = ''REQUEST_ACCOUNTS'', msg_network = None\<rparr> = ''REQUEST_ACCOUNTS''
   \<and> fst (port_onMessage_listener ''content-script''
        \<lparr>msg_type = ''REQUEST_ACCOUNTS'', msg_network = None\<rparr>
        \<lparr>isUnlocked = True, network = ''mainnet'', lastActivity = 0\<rparr>)
      = Some (ACCOUNTS_RESPONSE [''creata12345...''])
   \<and> fst (port_onMessage_listener ''content-script''
        \<lparr>msg_type = ''REQUEST_ACCOUNTS'', msg_network = None\<rparr>
        \<lparr>isUnlocked = False, network = ''mainnet'', lastActivity = 0\<rparr>)
      = Some (ERROR ''Wallet is locked'')"
  using request_accounts_response
      [of "\<lparr>msg_type = ''REQUEST_ACCOUNTS'', msg_network = None\<rparr>"
          "\<lparr>isUnlocked = True, network = ''mainnet'', lastActivity = 0\<rparr>"]
    request_accounts_response
      [of "\<lparr>msg_type = ''REQUEST_ACCOUNTS'', msg_network = None\<rparr>"
          "\<lparr>isUnlocked = False, network = ''mainnet'', lastActivity = 0\<rparr>"]
  by simp

text \<open>
  C7: the claim is that every inbound request, the port request \<open>REQUEST_ACCOUNTS\<close>
  included, stamps \<open>lastActivity\<close> with the current time.  The runtime-message listener
  does (lemma \<open>onMessage_listener_stamps\<close>); the port listener leaves the whole state
  as it is (lemma \<open>port_onMessage_listener_keeps_state\<close>): a session last active at
  time 0 that answers \<open>REQUEST_ACCOUNTS\<close> at any later time still has
  \<open>lastActivity = 0\<close>, where a runtime message at time 1000 leaves 1000.
\<close>

theorem port_request_keeps_lastActivity:
  "lastActivity (snd (port_onMessage_listener ''content-script''
       \<lparr>msg_type = ''REQUEST_ACCOUNTS'', msg_network = None\<rparr>
       \<lparr>isUnlocked = True, network = ''mainnet'', lastActivity = 0\<rparr>)) = 0
   \<and> lastActivity (snd (onMessage_listener 1000
       \<lparr>msg_type = ''GET_STATE'', msg_network = None\<rparr>
       \<lparr>isUnlocked = True, network = ''mainnet'', lastActivity = 0\<rparr>)) = 1000"
  by (simp add: port_onMessage_listener_def onMessage_listener_def Let_def)

section \<open>Properties of encrypt and decrypt\<close>

lemma length_salt_drawn: "length (salt_drawn rng) = 16"
  by (simp add: salt_drawn_def getRandomValues_def)

lemma length_iv_drawn: "length (iv_drawn rng) = 12"
  by (simp add: iv_drawn_def getRandomValues_def)

lemma slice_layout:
  assumes "length salt = 16" and "length iv = 12"
  shows "slice 0 16 (salt @ iv @ ct) = salt"
    and "slice 16 28 (salt @ iv @ ct) = iv"
    and "slice_from 28 (salt @ iv @ ct) = ct"
  using assms by (simp_all add: slice_def slice_from_def)

text \<open>A successful \<open>encrypt\<close> went through every step, on the salt and iv it drew.\<close>

lemma encrypt_Inr:
  assumes "encrypt B P W rng = (Inr blob, rng')"
  shows "\<exists>km key ct.
           importKey B (TextEncoder_encode B W) = Some km
         \<and> deriveKey B km (salt_drawn rng) 100000 = Some key
         \<and> AES_GCM_encrypt B key (iv_drawn rng) (TextEncoder_encode B P) = Some ct
         \<and> btoa B (salt_drawn rng @ iv_drawn rng @ ct) = Some blob
         \<and> rng' = snd (getRandomValues 12 (snd (getRandomValues 16 rng)))"
  using assms
  by (auto simp: encrypt_def Let_def salt_drawn_def iv_drawn_def
           split: option.splits prod.splits)

lemma encrypt_failure_message:
  "fst (encrypt B P W rng) = Inl e \<Longrightarrow> e = Error ''Failed to encrypt data''"
  by (auto simp: encrypt_def Let_def split: option.splits prod.splits)

lemma decrypt_failure_message: "decrypt B blob W = Inl e \<Longrightarrow> e = DECRYPT_FAILED"
  by (auto simp: decrypt_def Let_def split: option.splits)

subsection \<open>What a successful encrypt leaves for decrypt\<close>

lemma encrypt_blob_layout:
  assumes enc: "encrypt B P W rng = (Inr blob, rng')" and b64: "base64_inverse B"
  shows "\<exists>ct. atob B blob = Some (salt_drawn rng @ iv_drawn rng @ ct)"
proof -
  from encrypt_Inr [OF enc] obtain ct where
    "btoa B (salt_drawn rng @ iv_drawn rng @ ct) = Some blob"
    by blast
  with b64 show ?thesis
    by (auto simp: base64_inverse_def)
qed

lemma decrypt_same_password:
  assumes enc: "encrypt B P W rng = (Inr blob, rng')"
    and aead: "aead_correct B"
    and b64: "base64_inverse B"
  shows "decrypt B blob W = Inr (TextDecoder_decode B (TextEncoder_encode B P))"
proof -
  from encrypt_Inr [OF enc] obtain km key ct where
    km: "importKey B (TextEncoder_encode B W) = Some km"
    and key: "deriveKey B km (salt_drawn rng) 100000 = Some key"
    and ct: "AES_GCM_encrypt B key (iv_drawn rng) (TextEncoder_encode B P) = Some ct"
    and blob: "btoa B (salt_drawn rng @ iv_drawn rng @ ct) = Some blob"
    by blast
  from b64 blob have arr: "atob B blob = Some (salt_drawn rng @ iv_drawn rng @ ct)"
    by (simp add: base64_inverse_def)
  from aead ct have dec: "AES_GCM_decrypt B key (iv_drawn rng) ct = Some (TextEncoder_encode B P)"
    by (simp add: aead_correct_def)
  show ?thesis
    by (simp add: decrypt_def arr slice_layout length_salt_drawn length_iv_drawn km key dec)
qed

text \<open>
  A password whose key material derives, under the salt of the blob, the key that the
  password of \<open>encrypt\<close> derived opens the blob.
\<close>

lemma decrypt_same_key:
  assumes enc: "encrypt B P W rng = (Inr blob, rng')"
    and aead: "aead_correct B"
    and b64: "base64_inverse B"
    and km: "importKey B (TextEncoder_encode B W) = Some km"
    and km': "importKey B (TextEncoder_encode B W') = Some km'"
    and same: "deriveKey B km' (salt_drawn rng) 100000 = deriveKey B km (salt_drawn rng) 100000"
  shows "decrypt B blob W' = Inr (TextDecoder_decode B (TextEncoder_encode B P))"
proof -
  from encrypt_Inr [OF enc] km obtain key ct where
    key: "deriveKey B km (salt_drawn rng) 100000 = Some key"
    and ct: "AES_GCM_encrypt B key (iv_drawn rng) (TextEncoder_encode B P) = Some ct"
    and blob: "btoa B (salt_drawn rng @ iv_drawn rng @ ct) = Some blob"
    by auto
  from b64 blob have arr: "atob B blob = Some (salt_drawn rng @ iv_drawn rng @ ct)"
    by (simp add: base64_inverse_def)
  from aead ct have dec: "AES_GCM_decrypt B key (iv_drawn rng) ct = Some (TextEncoder_encode B P)"
    by (simp add: aead_correct_def)
  show ?thesis
    by (simp add: decrypt_def arr slice_layout length_salt_drawn length_iv_drawn km' same key dec)
qed

lemma decrypt_other_password:
  assumes enc: "encrypt B P W rng = (Inr blob, rng')"
    and b64: "base64_inverse B"
    and rej: "aead_rejects_other_key B"
    and other: "derives_other_key B W W'"
  shows "decrypt B blob W' = Inl DECRYPT_FAILED"
proof -
  from encrypt_Inr [OF enc] obtain km key ct where
    km: "importKey B (TextEncoder_encode B W) = Some km"
    and key: "deriveKey B km (salt_drawn rng) 100000 = Some key"
    and ct: "AES_GCM_encrypt B key (iv_drawn rng) (TextEncoder_encode B P) = Some ct"
    and blob: "btoa B (salt_drawn rng @ iv_drawn rng @ ct) = Some blob"
    by blast
  from b64 blob have arr: "atob B blob = Some (salt_drawn rng @ iv_drawn rng @ ct)"
    by (simp add: base64_inverse_def)
  show ?thesis
  proof (cases "importKey B (TextEncoder_encode B W')")
    case None
    then show ?thesis
      by (simp add: decrypt_def arr)
  next
    case (Some km')
    note km' = this
    show ?thesis
    proof (cases "deriveKey B km' (salt_drawn rng) 100000")
      case None
      with km' show ?thesis
        by (simp add: decrypt_def arr slice_layout length_salt_drawn length_iv_drawn)
    next
      case (Some key')
      with other km key km' have "key' \<noteq> key"
        unfolding derives_other_key_def by blast
      with rej ct have "AES_GCM_decrypt B key' (iv_drawn rng) ct = None"
        unfolding aead_rejects_other_key_def by blast
      with Some km' show ?thesis
        by (simp add: decrypt_def arr slice_layout length_salt_drawn length_iv_drawn)
    qed
  qed
qed

subsection \<open>The small browser meets what the code relies on\<close>

lemma byte_mod_256: "(of_nat (unat (b :: byte) mod 256) :: byte) = b"
proof -
  have "unat b < 256" using unsigned_less [of b, where ?'a = nat] by simp
  then show ?thesis by simp
qed

lemma char_of_byte_of: "char_of (unat (of_nat (of_char c) :: byte)) = c"
proof -
  have "unat (of_nat (of_char c) :: byte) = of_char c mod 256"
    by (simp add: unat_of_nat)
  then show ?thesis by simp
qed

lemma unary_header_eq:
  assumes "replicate a (1 :: byte) @ 0 # r = replicate b 1 @ 0 # r'"
  shows "a = b \<and> r = r'"
  using assms
proof (induction a arbitrary: b)
  case 0
  then show ?case by (cases b) auto
next
  case (Suc a)
  then show ?case by (cases b) auto
qed

lemma toy_aead_correct: "aead_correct toy_browser"
  by (simp add: aead_correct_def toy_browser_def Let_def)

lemma toy_base64_inverse: "base64_inverse toy_browser"
  by (auto simp: base64_inverse_def toy_browser_def byte_mod_256 comp_def)

lemma toy_aead_rejects_other_key: "aead_rejects_other_key toy_browser"
proof -
  have "take (length (replicate k' (1::byte) @ [0] @ iv)) (replicate k 1 @ [0] @ iv @ d)
          \<noteq> replicate k' 1 @ [0] @ iv" if "k' \<noteq> k" for k k' iv and d :: bytes
  proof
    let ?c = "replicate k (1::byte) @ [0] @ iv @ d"
    let ?n = "length (replicate k' (1::byte) @ [0] @ iv)"
    assume "take ?n ?c = replicate k' 1 @ [0] @ iv"
    then have "?c = (replicate k' 1 @ [0] @ iv) @ drop ?n ?c"
      by (metis append_take_drop_id)
    then have "replicate k (1::byte) @ 0 # (iv @ d) = replicate k' 1 @ 0 # (iv @ drop ?n ?c)"
      by simp
    from unary_header_eq [OF this] that show False by simp
  qed
  then show ?thesis
    by (auto simp: aead_rejects_other_key_def toy_browser_def Let_def)
qed

lemma toy_aead_fresh_iv: "aead_fresh_iv toy_browser"
proof -
  have "replicate k (1::byte) @ [0] @ iv @ d \<noteq> replicate k' 1 @ [0] @ iv' @ d"
    if "length iv = length iv'" "iv \<noteq> iv'" for k k' and iv iv' d :: bytes
  proof
    assume "replicate k (1::byte) @ [0] @ iv @ d = replicate k' 1 @ [0] @ iv' @ d"
    then have "replicate k (1::byte) @ 0 # (iv @ d) = replicate k' 1 @ 0 # (iv' @ d)"
      by simp
    from unary_header_eq [OF this] that show False by simp
  qed
  then show ?thesis
    by (auto simp: aead_fresh_iv_def toy_browser_def)
qed

lemma toy_utf8: "TextDecoder_decode toy_browser (TextEncoder_encode toy_browser s) = s"
  by (simp add: toy_browser_def char_of_byte_of comp_def)

lemma toy_encrypt:
  "\<exists>blob. encrypt toy_browser P W rng
            = (Inr blob, snd (getRandomValues 12 (snd (getRandomValues 16 rng))))"
  by (simp add: encrypt_def toy_browser_def Let_def split: prod.split)

lemma toy_derives_other_key:
  "length W \<noteq> length W' \<Longrightarrow> derives_other_key toy_browser W W'"
  by (auto simp: derives_other_key_def toy_browser_def)

lemma bom_aead_correct: "aead_correct bom_browser"
  using toy_aead_correct by (simp add: aead_correct_def bom_browser_def)

lemma bom_base64_inverse: "base64_inverse bom_browser"
  using toy_base64_inverse by (simp add: base64_inverse_def bom_browser_def)

lemma bom_encrypt:
  "\<exists>blob. encrypt bom_browser P W rng
            = (Inr blob, snd (getRandomValues 12 (snd (getRandomValues 16 rng))))"
  by (simp add: encrypt_def bom_browser_def toy_browser_def Let_def split: prod.split)

lemma bom_decoder_drops_mark:
  "TextDecoder_decode bom_browser
     (TextEncoder_encode bom_browser ([CHR 0xEF, CHR 0xBB, CHR 0xBF] @ s)) = s"
  by (simp add: bom_browser_def toy_browser_def char_of_byte_of comp_def)

lemma framed_header_eq:
  assumes "replicate (length k) (1 :: byte) @ 0 # k @ r = replicate (length k') 1 @ 0 # k' @ r'"
  shows "k = k' \<and> r = r'"
proof -
  from unary_header_eq [OF assms] have "length k = length k'" and "k @ r = k' @ r'"
    by simp_all
  then show ?thesis by simp
qed

lemma hmac_aead_correct: "aead_correct hmac_browser"
  by (simp add: aead_correct_def hmac_browser_def Let_def)

lemma hmac_base64_inverse: "base64_inverse hmac_browser"
  by (auto simp: base64_inverse_def hmac_browser_def byte_mod_256 comp_def)

lemma hmac_aead_rejects_other_key: "aead_rejects_other_key hmac_browser"
proof -
  have "take (length (replicate (length k') (1::byte) @ [0] @ k' @ iv))
             (replicate (length k) 1 @ [0] @ k @ iv @ d)
          \<noteq> replicate (length k') 1 @ [0] @ k' @ iv" if "k' \<noteq> k" for k k' iv and d :: bytes
  proof
    let ?c = "replicate (length k) (1::byte) @ [0] @ k @ iv @ d"
    let ?n = "length (replicate (length k') (1::byte) @ [0] @ k' @ iv)"
    assume "take ?n ?c = replicate (length k') 1 @ [0] @ k' @ iv"
    then have "?c = (replicate (length k') 1 @ [0] @ k' @ iv) @ drop ?n ?c"
      by (metis append_take_drop_id)
    then have "replicate (length k) (1::byte) @ 0 # k @ (iv @ d)
                 = replicate (length k') 1 @ 0 # k' @ (iv @ drop ?n ?c)"
      by simp
    from framed_header_eq [OF this] that show False by simp
  qed
  then show ?thesis
    by (auto simp: aead_rejects_other_key_def hmac_browser_def Let_def)
qed

lemma hmac_encrypt:
  "\<exists>blob. encrypt hmac_browser P W rng
            = (Inr blob, snd (getRandomValues 12 (snd (getRandomValues 16 rng))))"
  by (simp add: encrypt_def hmac_browser_def Let_def split: prod.split)

lemma hmac_utf8: "TextDecoder_decode hmac_browser (TextEncoder_encode hmac_browser s) = s"
  by (simp add: hmac_browser_def char_of_byte_of comp_def)

lemma hmac_key_block_zero:
  "length key < 64 \<Longrightarrow> hmac_key_block (key @ [0]) = hmac_key_block key"
proof -
  assume "length key < 64"
  then have "64 - length key = Suc (64 - Suc (length key))" by simp
  then show ?thesis
    by (simp add: hmac_key_block_def)
qed

subsection \<open>Round trip\<close>

text \<open>
  C1, as the claim states it, fails: not every plaintext comes back.  \<open>decrypt\<close> decodes
  with \<open>new TextDecoder()\<close>, which drops a leading byte order mark, so the plaintext
  U+FEFF followed by \<open>secret\<close> is encrypted and then decrypted, with the same password
  and a correct cipher and base64, to \<open>secret\<close>.
\<close>

theorem roundtrip_drops_byte_order_mark:
  "[CHR 0xEF, CHR 0xBB, CHR 0xBF] @ ''secret'' \<noteq> ''secret''
   \<and> aead_correct bom_browser \<and> base64_inverse bom_browser
   \<and> (\<exists>blob rng'.
         encrypt bom_browser ([CHR 0xEF, CHR 0xBB, CHR 0xBF] @ ''secret'') ''password1''
           counting_entropy = (Inr blob, rng')
       \<and> decrypt bom_browser blob ''password1'' = Inr ''secret'')"
proof -
  from bom_encrypt obtain blob rng' where
    enc: "encrypt bom_browser ([CHR 0xEF, CHR 0xBB, CHR 0xBF] @ ''secret'') ''password1''
            counting_entropy = (Inr blob, rng')"
    by blast
  from decrypt_same_password [OF enc bom_aead_correct bom_base64_inverse]
  have "decrypt bom_browser blob ''password1'' = Inr ''secret''"
    by (simp only: bom_decoder_drops_mark)
  with enc bom_aead_correct bom_base64_inverse show ?thesis by auto
qed

text \<open>
  C1, amended: for every password \<open>W\<close> and every plaintext \<open>P\<close> that the UTF-8 encoder
  and decoder give back unchanged (every well-formed string that does not start with
  U+FEFF), decrypting, with \<open>W\<close>, what \<open>encrypt\<close> returned for \<open>P\<close> and \<open>W\<close> returns exactly
  \<open>P\<close>; the blob is the base64 text of a 16-byte salt, a 12-byte iv and the ciphertext,
  in this order, which \<open>decrypt\<close> cuts apart again.  The browser's cipher opens what it
  sealed and its base64 conversions are inverse.
\<close>

theorem encrypt_decrypt_roundtrip:
  assumes enc: "encrypt B P W rng = (Inr blob, rng')"
    and aead: "aead_correct B"
    and b64: "base64_inverse B"
    and utf8: "TextDecoder_decode B (TextEncoder_encode B P) = P"
  shows "decrypt B blob W = Inr P
       \<and> (\<exists>salt iv ct. atob B blob = Some (salt @ iv @ ct) \<and> length salt = 16 \<and> length iv = 12)"
proof
  show "decrypt B blob W = Inr P"
    using decrypt_same_password [OF enc aead b64] utf8 by simp
  from encrypt_blob_layout [OF enc b64]
  show "\<exists>salt iv ct. atob B blob = Some (salt @ iv @ ct) \<and> length salt = 16 \<and> length iv = 12"
    using length_salt_drawn length_iv_drawn by blast
qed

theorem encrypt_decrypt_roundtrip_witness:
  "\<exists>blob rng'. encrypt toy_browser ''secret'' ''password1'' counting_entropy = (Inr blob, rng')
     \<and> aead_correct toy_browser \<and> base64_inverse toy_browser
     \<and> TextDecoder_decode toy_browser (TextEncoder_encode toy_browser ''secret'') = ''secret''
     \<and> decrypt toy_browser blob ''password1'' = Inr ''secret''"
proof -
  from toy_encrypt obtain blob rng' where
    enc: "encrypt toy_browser ''secret'' ''password1'' counting_entropy = (Inr blob, rng')"
    by blast
  from encrypt_decrypt_roundtrip [OF enc toy_aead_correct toy_base64_inverse toy_utf8]
  have "decrypt toy_browser blob ''password1'' = Inr ''secret''" by simp
  with enc toy_aead_correct toy_base64_inverse toy_utf8 show ?thesis by blast
qed

subsection \<open>Wrong password\<close>

text \<open>
  C2, as the claim states it, fails: not every other password is rejected.  PBKDF2 keys
  HMAC with the password, and HMAC pads its key with zero bytes, so \<open>password1\<close> followed
  by U+0000 derives the key of \<open>password1\<close> and opens its blob, even with a cipher that
  rejects every other key.
\<close>

theorem other_password_opens:
  "''password1'' @ [CHR 0x00] \<noteq> ''password1''
   \<and> aead_correct hmac_browser \<and> aead_rejects_other_key hmac_browser
   \<and> base64_inverse hmac_browser
   \<and> (\<exists>blob rng'.
         encrypt hmac_browser ''secret'' ''password1'' counting_entropy = (Inr blob, rng')
       \<and> decrypt hmac_browser blob (''password1'' @ [CHR 0x00]) = Inr ''secret'')"
proof -
  from hmac_encrypt obtain blob rng' where
    enc: "encrypt hmac_browser ''secret'' ''password1'' counting_entropy = (Inr blob, rng')"
    by blast
  have enc0: "TextEncoder_encode hmac_browser (''password1'' @ [CHR 0x00])
                = TextEncoder_encode hmac_browser ''password1'' @ [0]"
    by (simp add: hmac_browser_def)
  have len: "length (TextEncoder_encode hmac_browser ''password1'') < 64"
    by (simp add: hmac_browser_def)
  have km: "importKey hmac_browser (TextEncoder_encode hmac_browser ''password1'')
              = Some (TextEncoder_encode hmac_browser ''password1'')"
    by (simp add: hmac_browser_def)
  have km': "importKey hmac_browser (TextEncoder_encode hmac_browser (''password1'' @ [CHR 0x00]))
              = Some (TextEncoder_encode hmac_browser ''password1'' @ [0])"
    unfolding enc0 by (simp add: hmac_browser_def)
  have same: "deriveKey hmac_browser (TextEncoder_encode hmac_browser ''password1'' @ [0])
                 (salt_drawn counting_entropy) 100000
              = deriveKey hmac_browser (TextEncoder_encode hmac_browser ''password1'')
                 (salt_drawn counting_entropy) 100000"
    using hmac_key_block_zero [OF len] by (simp add: hmac_browser_def)
  from decrypt_same_key [OF enc hmac_aead_correct hmac_base64_inverse km km' same]
  have "decrypt hmac_browser blob (''password1'' @ [CHR 0x00]) = Inr ''secret''"
    by (simp only: hmac_utf8)
  with enc hmac_aead_correct hmac_aead_rejects_other_key hmac_base64_inverse
  show ?thesis by auto
qed

text \<open>
  C2, amended: decrypting what \<open>encrypt\<close> returned for the password \<open>W\<close> with a password
  \<open>W'\<close> that derives another key than \<open>W\<close> fails, so no plaintext is returned; and
  whatever makes \<open>decrypt\<close> fail, on any input, the error is the same one, with the
  message \<open>Failed to decrypt data. Incorrect password or corrupted data.\<close>, so a wrong
  password and a damaged blob cannot be told apart.  The cipher is one under which
  another key never verifies the tag.
\<close>

theorem wrong_password_fails:
  assumes enc: "encrypt B P W rng = (Inr blob, rng')"
    and b64: "base64_inverse B"
    and rej: "aead_rejects_other_key B"
    and other: "derives_other_key B W W'"
  shows "decrypt B blob W' = Inl DECRYPT_FAILED
       \<and> (\<forall>b w e. decrypt B b w = Inl e \<longrightarrow> e = DECRYPT_FAILED)
       \<and> DECRYPT_FAILED = Error ''Failed to decrypt data. Incorrect password or corrupted data.''"
  using decrypt_other_password [OF enc b64 rej other]
  by (auto simp: DECRYPT_FAILED_def dest: decrypt_failure_message)

theorem wrong_password_fails_witness:
  "\<exists>blob rng'. encrypt toy_browser ''secret'' ''password1'' counting_entropy = (Inr blob, rng')
     \<and> base64_inverse toy_browser \<and> aead_rejects_other_key toy_browser
     \<and> derives_other_key toy_browser ''password1'' ''wrong''
     \<and> decrypt toy_browser blob ''wrong'' = Inl DECRYPT_FAILED"
proof -
  from toy_encrypt obtain blob rng' where
    enc: "encrypt toy_browser ''secret'' ''password1'' counting_entropy = (Inr blob, rng')"
    by blast
  have other: "derives_other_key toy_browser ''password1'' ''wrong''"
    by (rule toy_derives_other_key) simp
  from wrong_password_fails [OF enc toy_base64_inverse toy_aead_rejects_other_key other]
  have "decrypt toy_browser blob ''wrong'' = Inl DECRYPT_FAILED" by simp
  with enc toy_base64_inverse toy_aead_rejects_other_key other show ?thesis by blast
qed

subsection \<open>Fresh salt and iv\<close>

text \<open>
  C6: two calls of \<open>encrypt\<close> on the same plaintext and password, the second on the
  random source the first left, whose salt draws differ and whose iv draws differ, give
  two blobs whose 16-byte salts differ, whose 12-byte ivs differ and whose ciphertexts
  differ; the blobs differ.  Each blob carries the salt and iv its call drew.  The
  cipher is the idealised one, under which two different ivs never give one ciphertext.
\<close>

theorem encrypt_twice_differs:
  assumes enc1: "encrypt B P W rng = (Inr blob1, rng1)"
    and enc2: "encrypt B P W rng1 = (Inr blob2, rng2)"
    and b64: "base64_inverse B"
    and fresh: "aead_fresh_iv B"
    and salts: "salt_drawn rng \<noteq> salt_drawn rng1"
    and ivs: "iv_drawn rng \<noteq> iv_drawn rng1"
  shows "\<exists>a1 a2. atob B blob1 = Some a1 \<and> atob B blob2 = Some a2
           \<and> slice 0 16 a1 = salt_drawn rng \<and> slice 0 16 a2 = salt_drawn rng1
           \<and> slice 16 28 a1 = iv_drawn rng \<and> slice 16 28 a2 = iv_drawn rng1
           \<and> slice 0 16 a1 \<noteq> slice 0 16 a2
           \<and> slice 16 28 a1 \<noteq> slice 16 28 a2
           \<and> slice_from 28 a1 \<noteq> slice_from 28 a2
           \<and> blob1 \<noteq> blob2"
proof -
  from encrypt_Inr [OF enc1] obtain km1 key1 ct1 where
    ct1: "AES_GCM_encrypt B key1 (iv_drawn rng) (TextEncoder_encode B P) = Some ct1"
    and blob1: "btoa B (salt_drawn rng @ iv_drawn rng @ ct1) = Some blob1"
    by blast
  from encrypt_Inr [OF enc2] obtain km2 key2 ct2 where
    ct2: "AES_GCM_encrypt B key2 (iv_drawn rng1) (TextEncoder_encode B P) = Some ct2"
    and blob2: "btoa B (salt_drawn rng1 @ iv_drawn rng1 @ ct2) = Some blob2"
    by blast
  from b64 blob1 have a1: "atob B blob1 = Some (salt_drawn rng @ iv_drawn rng @ ct1)"
    by (simp add: base64_inverse_def)
  from b64 blob2 have a2: "atob B blob2 = Some (salt_drawn rng1 @ iv_drawn rng1 @ ct2)"
    by (simp add: base64_inverse_def)
  from fresh ivs ct1 ct2 have cts: "ct1 \<noteq> ct2"
    unfolding aead_fresh_iv_def using length_iv_drawn by blast
  from a1 a2 salts have blobs: "blob1 \<noteq> blob2"
    by (auto simp: length_salt_drawn)
  show ?thesis
    using a1 a2 salts ivs cts blobs
    by (simp add: slice_layout length_salt_drawn length_iv_drawn)
qed

theorem encrypt_twice_differs_witness:
  "\<exists>blob1 rng1 blob2 rng2.
       encrypt toy_browser ''secret'' ''password1'' counting_entropy = (Inr blob1, rng1)
     \<and> encrypt toy_browser ''secret'' ''password1'' rng1 = (Inr blob2, rng2)
     \<and> base64_inverse toy_browser \<and> aead_fresh_iv toy_browser
     \<and> salt_drawn counting_entropy \<noteq> salt_drawn rng1
     \<and> iv_drawn counting_entropy \<noteq> iv_drawn rng1
     \<and> blob1 \<noteq> blob2"
proof -
  define rng1 where "rng1 = snd (getRandomValues 12 (snd (getRandomValues 16 counting_entropy)))"
  from toy_encrypt obtain blob1 where
    enc1: "encrypt toy_browser ''secret'' ''password1'' counting_entropy = (Inr blob1, rng1)"
    unfolding rng1_def by blast
  from toy_encrypt obtain blob2 rng2 where
    enc2: "encrypt toy_browser ''secret'' ''password1'' rng1 = (Inr blob2, rng2)"
    by blast
  have salts: "salt_drawn counting_entropy \<noteq> salt_drawn rng1"
    unfolding rng1_def by code_simp
  have ivs: "iv_drawn counting_entropy \<noteq> iv_drawn rng1"
    unfolding rng1_def by code_simp
  from encrypt_twice_differs [OF enc1 enc2 toy_base64_inverse toy_aead_fresh_iv salts ivs]
  have "blob1 \<noteq> blob2" by blast
  with enc1 enc2 toy_base64_inverse toy_aead_fresh_iv salts ivs show ?thesis by blast
qed

section \<open>Properties of the storage and keyring modules\<close>

lemma saveData_secure_stores_blob:
  assumes "saveData B key v True (Some pw) rng st = (Resolved (), rng', st')"
  shows "\<exists>blob. fst (encrypt B (JSON_stringify B v) pw rng) = Inr blob
               \<and> items st' key = Some blob"
  using assms
  by (auto simp: saveData_def storage_set_def Let_def
           split: if_splits sum.splits option.splits prod.splits)

lemma hasWallet_never_rejects: "hasWallet B st \<noteq> Rejected e"
  by (simp add: hasWallet_def split: promise.split option.split)

lemma hasWallet_no_record:
  "items st WALLET_KEY = None \<Longrightarrow> hasWallet B st = Resolved False"
  by (simp add: hasWallet_def getData_def split: option.split)

text \<open>
  C4: the claim is that \<open>loadWallet\<close> fails in one way when no wallet record exists and
  in another when the record exists and the password is wrong.  In the code the error
  thrown for the missing record, \<open>No wallet found in storage\<close>, is thrown inside the
  \<open>try\<close> and replaced by its \<open>catch\<close>: with no record, and with a record that does not
  decrypt, \<open>loadWallet\<close> rejects with the same error, and it never rejects with another.
\<close>

theorem loadWallet_failures_coincide:
  "(lastError st = None \<longrightarrow> items st WALLET_KEY = None \<longrightarrow>
      loadWallet_try B L pw st = Rejected (Error ''No wallet found in storage'')
      \<and> loadWallet B L pw st = Rejected LOAD_FAILED)
   \<and> (lastError st = None \<longrightarrow> items st WALLET_KEY = Some blob \<longrightarrow> blob \<noteq> [] \<longrightarrow> pw \<noteq> [] \<longrightarrow>
      decrypt B blob pw = Inl DECRYPT_FAILED \<longrightarrow>
      loadWallet B L pw st = Rejected LOAD_FAILED)
   \<and> (\<forall>e. loadWallet B L pw st = Rejected e \<longrightarrow> e = LOAD_FAILED)
   \<and> LOAD_FAILED = Error ''Failed to load wallet. Incorrect password or corrupted data.''"
  by (auto simp: loadWallet_def loadWallet_try_def getData_def LOAD_FAILED_def
           split: promise.splits option.splits sum.splits if_splits)

theorem loadWallet_failures_coincide_witness:
  "loadWallet toy_browser toy_library ''password1'' \<lparr>items = Map.empty, lastError = None\<rparr>
     = Rejected LOAD_FAILED
   \<and> toy_wallet_blob \<noteq> []
   \<and> decrypt toy_browser toy_wallet_blob ''wrong'' = Inl DECRYPT_FAILED
   \<and> loadWallet toy_browser toy_library ''wrong''
       \<lparr>items = [WALLET_KEY \<mapsto> toy_wallet_blob], lastError = None\<rparr>
     = Rejected LOAD_FAILED
   \<and> loadWallet toy_browser toy_library ''password1''
       \<lparr>items = [WALLET_KEY \<mapsto> toy_wallet_blob], lastError = None\<rparr>
     = Resolved ''wallet''"
proof -
  let ?st = "\<lparr>items = [WALLET_KEY \<mapsto> toy_wallet_blob], lastError = None\<rparr>"
  from toy_encrypt obtain blob rng' where
    "encrypt toy_browser (JSON_stringify toy_browser ''wallet'') ''password1'' counting_entropy
       = (Inr blob, rng')"
    by blast
  then have enc:
    "encrypt toy_browser (JSON_stringify toy_browser ''wallet'') ''password1'' counting_entropy
       = (Inr toy_wallet_blob, rng')"
    by (simp add: toy_wallet_blob_def)
  from encrypt_blob_layout [OF enc toy_base64_inverse] have 1: "toy_wallet_blob \<noteq> []"
    using length_salt_drawn [of counting_entropy] by (auto simp: toy_browser_def)
  have 2: "decrypt toy_browser toy_wallet_blob ''wrong'' = Inl DECRYPT_FAILED"
    by (rule decrypt_other_password
              [OF enc toy_base64_inverse toy_aead_rejects_other_key toy_derives_other_key])
       simp
  have "decrypt toy_browser toy_wallet_blob ''password1''
          = Inr (JSON_stringify toy_browser ''wallet'')"
    using decrypt_same_password [OF enc toy_aead_correct toy_base64_inverse]
    by (simp add: toy_utf8)
  then have 3: "loadWallet toy_browser toy_library ''password1'' ?st = Resolved ''wallet''"
    using 1
    by (simp add: loadWallet_def loadWallet_try_def getData_def)
       (simp add: toy_browser_def toy_library_def)
  from loadWallet_failures_coincide
         [of "\<lparr>items = Map.empty, lastError = None\<rparr>" toy_browser toy_library "''password1''"]
  have 4: "loadWallet toy_browser toy_library ''password1'' \<lparr>items = Map.empty, lastError = None\<rparr>
             = Rejected LOAD_FAILED"
    by simp
  from loadWallet_failures_coincide [of ?st toy_browser toy_library "''wrong''" toy_wallet_blob] 1 2
  have 5: "loadWallet toy_browser toy_library ''wrong'' ?st = Rejected LOAD_FAILED"
    by simp
  from 1 2 3 4 5 show ?thesis by simp
qed

text \<open>
  C5: the claim is that \<open>hasWallet\<close> returns \<open>true\<close> whenever a wallet record exists.
  The record that \<open>storeWallet\<close> writes is the base64 text of an encrypted blob;
  \<open>hasWallet\<close> reads it with \<open>secure = false\<close>, so \<open>getData\<close> hands that text to
  \<open>JSON.parse\<close>.  When it is not JSON, the promise of \<open>getData\<close> is never settled and
  \<open>hasWallet\<close> never returns.  (It does not throw, and with no record it returns \<open>false\<close>:
  lemmas \<open>hasWallet_never_rejects\<close> and \<open>hasWallet_no_record\<close>.)
\<close>

theorem hasWallet_pending:
  assumes "lastError st = None"
    and "items st WALLET_KEY = Some blob"
    and "blob \<noteq> []"
    and "JSON_parse B blob = Inl e"
  shows "hasWallet B st = Pending"
  using assms by (simp add: hasWallet_def getData_def)

theorem hasWallet_pending_witness:
  "JSON_parse toy_browser ''q83vEjRWeJCrze8SNFZ4kA=='' = Inl (Error ''SyntaxError'')
   \<and> hasWallet toy_browser
       \<lparr>items = [WALLET_KEY \<mapsto> ''q83vEjRWeJCrze8SNFZ4kA==''], lastError = None\<rparr> = Pending"
proof -
  have 1: "JSON_parse toy_browser ''q83vEjRWeJCrze8SNFZ4kA=='' = Inl (Error ''SyntaxError'')"
    by code_simp
  from hasWallet_pending
         [of "\<lparr>items = [WALLET_KEY \<mapsto> ''q83vEjRWeJCrze8SNFZ4kA==''], lastError = None\<rparr>"
             "''q83vEjRWeJCrze8SNFZ4kA==''" toy_browser, OF _ _ _ 1]
  show ?thesis using 1 by simp
qed

text \<open>
  C10: \<open>generateWallet\<close> does not depend on its \<open>strength\<close> argument: for every two
  values of it the result is the same, because the library is always asked for 24
  words; with a library that returns 24 words when asked for 24, every wallet generated
  has a 24-word phrase.
\<close>

theorem generateWallet_ignores_strength:
  assumes "\<forall>opts r w. HdWallet_generate L 24 opts r = Inr w \<longrightarrow> wordCount (wallet_mnemonic L w) = 24"
  shows "generateWallet L strength rng = generateWallet L strength' rng
       \<and> generateWallet L strength rng =
           (case HdWallet_generate L 24
                   \<lparr>prefix = ''creata'', hdPaths = [''m/44'/60'/0'/0/0'']\<rparr> rng of
              Inl e \<Rightarrow> Rejected (Error ''Wallet generation failed'')
            | Inr wallet \<Rightarrow> Resolved wallet)
       \<and> (\<forall>w. generateWallet L strength rng = Resolved w \<longrightarrow> wordCount (wallet_mnemonic L w) = 24)"
  using assms by (auto simp: generateWallet_def split: sum.splits)

theorem generateWallet_ignores_strength_witness:
  "generateWallet toy_library 128 counting_entropy
     = Resolved (join_words (replicate 24 ''abandon''))
   \<and> generateWallet toy_library 256 counting_entropy
     = Resolved (join_words (replicate 24 ''abandon''))
   \<and> wordCount (wallet_mnemonic toy_library (join_words (replicate 24 ''abandon''))) = 24"
proof -
  have c: "wordCount (join_words (replicate 24 ''abandon'')) = 24" by code_simp
  then have contract: "\<forall>opts r w. HdWallet_generate toy_library 24 opts r = Inr w
                \<longrightarrow> wordCount (wallet_mnemonic toy_library w) = 24"
    by (simp add: toy_library_def)
  have g: "generateWallet toy_library 128 counting_entropy
             = Resolved (join_words (replicate 24 ''abandon''))"
    by (simp add: generateWallet_def toy_library_def)
  from generateWallet_ignores_strength [OF contract, of 128 counting_entropy 256] g
  show ?thesis by simp
qed

section \<open>Properties of the mnemonic helpers and the import form\<close>

lemma isWhiteSpace_toLowerCase_unit: "isWhiteSpace (toLowerCase_unit c) = isWhiteSpace c"
proof -
  have "of_char c < (256::nat)" by simp
  then show ?thesis
    by (auto simp: isWhiteSpace_def toLowerCase_unit_def Let_def)
qed

lemma toLowerCase_simps [simp]:
  "toLowerCase [] = []"
  "toLowerCase (c # cs) = toLowerCase_unit c # toLowerCase cs"
  by (simp_all add: toLowerCase_def)

text \<open>A trimmed string is empty or has no white space at either end.\<close>

lemma trimmed_ends:
  "trim s = [] \<or> (\<not> isWhiteSpace (hd (trim s)) \<and> \<not> isWhiteSpace (last (trim s)))"
proof (cases "trim s = []")
  case True
  then show ?thesis by simp
next
  case False
  let ?u = "dropWhile isWhiteSpace s"
  let ?d = "dropWhile isWhiteSpace (rev ?u)"
  from False have d: "?d \<noteq> []" unfolding trim_def rev_is_Nil_conv .
  then have "\<not> isWhiteSpace (hd ?d)" by (rule hd_dropWhile)
  with d have l: "\<not> isWhiteSpace (last (trim s))"
    by (simp add: trim_def last_rev)
  from d have u: "?u \<noteq> []"
    by (metis dropWhile.simps(1) rev.simps(1))
  then have hu: "\<not> isWhiteSpace (hd ?u)" by (rule hd_dropWhile)
  have "rev ?u = takeWhile isWhiteSpace (rev ?u) @ ?d" by simp
  then have "?u = rev ?d @ rev (takeWhile isWhiteSpace (rev ?u))"
    by (metis rev_append rev_rev_ident)
  with d have "hd ?u = hd (rev ?d)"
    by (metis hd_append2 rev_is_Nil_conv)
  with hu have "\<not> isWhiteSpace (hd (trim s))" by (simp add: trim_def)
  with l show ?thesis by simp
qed

lemma trim_idem: "trim (trim s) = trim s"
proof (cases "trim s = []")
  case True
  show ?thesis unfolding True by (simp add: trim_def)
next
  case False
  with trimmed_ends [of s]
  have h: "\<not> isWhiteSpace (hd (trim s))" and l: "\<not> isWhiteSpace (last (trim s))"
    by auto
  from h have 1: "dropWhile isWhiteSpace (trim s) = trim s"
    by (simp add: dropWhile_eq_self_iff)
  from l False have "\<not> isWhiteSpace (hd (rev (trim s)))"
    by (simp add: hd_rev)
  then have 2: "dropWhile isWhiteSpace (rev (trim s)) = rev (trim s)"
    by (simp add: dropWhile_eq_self_iff)
  show ?thesis
    unfolding trim_def [of "trim s"] 1 2 by simp
qed

lemma split_ws_not_Nil: "split_ws s \<noteq> []"
  by (subst split_ws.simps) (simp split: list.split)

lemma replace_ws_no_space:
  "\<forall>c \<in> set xs. \<not> isWhiteSpace c \<Longrightarrow> replace_ws (xs @ ys) = xs @ replace_ws ys"
  by (induction xs) auto

lemma join_words_Cons: "ws \<noteq> [] \<Longrightarrow> join_words (w # ws) = w @ CHR '' '' # join_words ws"
  by (cases ws) auto

text \<open>Replacing the runs of white space by one space joins the pieces of the split.\<close>

lemma replace_ws_join_words: "replace_ws s = join_words (split_ws s)"
proof (induction s rule: split_ws.induct)
  case (1 s)
  show ?case
  proof (cases "dropWhile (\<lambda>c. \<not> isWhiteSpace c) s")
    case Nil
    then have "\<forall>c \<in> set s. \<not> isWhiteSpace c"
      by (simp add: dropWhile_eq_Nil_conv)
    then have "replace_ws (s @ []) = s @ replace_ws []"
      by (rule replace_ws_no_space)
    then show ?thesis
      by (subst split_ws.simps) (simp add: Nil)
  next
    case (Cons c rest)
    let ?w = "takeWhile (\<lambda>c. \<not> isWhiteSpace c) s"
    have s: "s = ?w @ c # rest"
      using Cons by (metis takeWhile_dropWhile_id)
    have c: "isWhiteSpace c"
      using Cons hd_dropWhile [of "\<lambda>c. \<not> isWhiteSpace c" s] by auto
    have w: "\<forall>c \<in> set ?w. \<not> isWhiteSpace c"
      by (auto dest: set_takeWhileD)
    have "replace_ws s = replace_ws (?w @ c # rest)"
      using s by simp
    also have "\<dots> = ?w @ replace_ws (c # rest)"
      using w by (rule replace_ws_no_space)
    also have "\<dots> = ?w @ CHR '' '' # replace_ws (dropWhile isWhiteSpace rest)"
      using c by simp
    also have "\<dots> = ?w @ CHR '' '' # join_words (split_ws (dropWhile isWhiteSpace rest))"
      using "1.IH" [OF Cons] by simp
    also have "\<dots> = join_words (?w # split_ws (dropWhile isWhiteSpace rest))"
      by (simp add: join_words_Cons split_ws_not_Nil)
    also have "\<dots> = join_words (split_ws s)"
      using Cons by (subst (2) split_ws.simps) simp
    finally show ?thesis .
  qed
qed

text \<open>Lower-casing keeps white space where it is, so it maps over the pieces.\<close>

lemma split_ws_toLowerCase: "split_ws (toLowerCase s) = map toLowerCase (split_ws s)"
proof (induction s rule: split_ws.induct)
  case (1 s)
  have dw: "dropWhile (\<lambda>c. \<not> isWhiteSpace c) (toLowerCase s)
              = toLowerCase (dropWhile (\<lambda>c. \<not> isWhiteSpace c) s)"
    by (simp add: toLowerCase_def dropWhile_map comp_def isWhiteSpace_toLowerCase_unit)
  have tw: "takeWhile (\<lambda>c. \<not> isWhiteSpace c) (toLowerCase s)
              = toLowerCase (takeWhile (\<lambda>c. \<not> isWhiteSpace c) s)"
    by (simp add: toLowerCase_def takeWhile_map comp_def isWhiteSpace_toLowerCase_unit)
  have dw': "dropWhile isWhiteSpace (toLowerCase r) = toLowerCase (dropWhile isWhiteSpace r)" for r
    by (simp add: toLowerCase_def dropWhile_map comp_def isWhiteSpace_toLowerCase_unit)
  show ?case
  proof (cases "dropWhile (\<lambda>c. \<not> isWhiteSpace c) s")
    case Nil
    show ?thesis
      by (subst split_ws.simps, subst (2) split_ws.simps) (simp add: dw Nil)
  next
    case (Cons c rest)
    from "1.IH" [OF Cons] show ?thesis
      by (subst split_ws.simps, subst (2) split_ws.simps) (simp add: dw tw dw' Cons)
  qed
qed

lemma cleanedMnemonic_words:
  "cleanedMnemonic m = join_words (map toLowerCase (split_ws (trim m)))"
  by (simp add: cleanedMnemonic_def replace_ws_join_words split_ws_toLowerCase)

lemma validateForm_mnemonic_None:
  "validateForm_mnemonic m = None \<longleftrightarrow> wordCount m \<in> {12, 15, 18, 21, 24}"
proof (cases "trim m = []")
  case True
  then have "wordCount m = 1"
    by (simp add: wordCount_def split_ws.simps)
  with True show ?thesis by (simp add: validateForm_mnemonic_def)
next
  case False
  then show ?thesis
    by (simp add: validateForm_mnemonic_def isValidMnemonic_def trim_idem wordCount_def Let_def)
qed

text \<open>
  C8, as the claim states it, fails: \<open>importFromMnemonic\<close> does not normalize its
  argument.  The phrase below has 12 words and its cleaned form is accepted, yet
  \<open>importFromMnemonic\<close> hands it with its leading space and capital letter to the
  library, which rejects it.
\<close>

theorem importFromMnemonic_does_not_normalize:
  "wordCount '' Abandon abandon abandon abandon abandon abandon abandon abandon abandon abandon abandon about'' = 12
   \<and> cleanedMnemonic '' Abandon abandon abandon abandon abandon abandon abandon abandon abandon abandon abandon about''
       = ''abandon abandon abandon abandon abandon abandon abandon abandon abandon abandon abandon about''
   \<and> importFromMnemonic toy_library
       '' Abandon abandon abandon abandon abandon abandon abandon abandon abandon abandon abandon about''
       = Rejected (Error ''Invalid mnemonic phrase'')
   \<and> importFromMnemonic toy_library
       ''abandon abandon abandon abandon abandon abandon abandon abandon abandon abandon abandon about''
       = Resolved ''abandon abandon abandon abandon abandon abandon abandon abandon abandon abandon abandon about''"
  by code_simp

text \<open>
  C8, amended: normalization and the word count belong to the import form, not to
  \<open>importFromMnemonic\<close>.  The form calls \<open>importFromMnemonic\<close> exactly when the trimmed
  phrase has 12, 15, 18, 21 or 24 words (and the password fields pass), and then on the
  words of the phrase, lower-cased and joined by single spaces.  \<open>importFromMnemonic\<close>
  hands its argument as it is to the library, with the prefix \<open>creata\<close> and the path
  \<open>m/44'/60'/0'/0/0\<close>, the options \<open>generateWallet\<close> uses; it returns the library's wallet
  and fails with \<open>Invalid mnemonic phrase\<close> exactly when the library rejects the phrase.
\<close>

theorem import_form_normalizes_and_counts:
  "handleImportWallet L m pw cpw =
     (if wordCount m \<in> {12, 15, 18, 21, 24} \<and> validateForm_password pw cpw = None
      then Some (importFromMnemonic L (join_words (map toLowerCase (split_ws (trim m)))))
      else None)
   \<and> importFromMnemonic L p =
       (case HdWallet_fromMnemonic L p \<lparr>prefix = ''creata'', hdPaths = [''m/44'/60'/0'/0/0'']\<rparr> of
          Inl e \<Rightarrow> Rejected (Error ''Invalid mnemonic phrase'')
        | Inr wallet \<Rightarrow> Resolved wallet)
   \<and> generateWallet L strength rng =
       (case HdWallet_generate L 24 \<lparr>prefix = ''creata'', hdPaths = [''m/44'/60'/0'/0/0'']\<rparr> rng of
          Inl e \<Rightarrow> Rejected (Error ''Wallet generation failed'')
        | Inr wallet \<Rightarrow> Resolved wallet)"
proof -
  have "validateForm m pw cpw
          \<longleftrightarrow> wordCount m \<in> {12, 15, 18, 21, 24} \<and> validateForm_password pw cpw = None"
    unfolding validateForm_def validateForm_mnemonic_None ..
  then show ?thesis
    by (simp add: handleImportWallet_def cleanedMnemonic_words importFromMnemonic_def
                  generateWallet_def)
qed

end
